theory Spec2Isabelle
  imports Main "HOL-Library.Char_ord" "HOL-Library.List_Lexorder"
begin

section \<open>Data model (src/types.ts)\<close>

text \<open>
  Timestamps are JavaScript numbers holding integral milliseconds; they are modelled as
  \<open>int\<close>. Optional fields (\<open>?:\<close>, \<open>| null\<close>) are \<open>option\<close>s: the storage layer writes
  \<open>undefined\<close> as \<open>null\<close>, so both are \<open>None\<close>.
\<close>

datatype device_type = mobile | tablet | desktop

record ClickEvent =
  timestamp :: int
  referrer :: "string option"
  deviceType :: "device_type option"
  timezone :: "string option"
  userAgent :: "string option"

record ShortenedUrl =
  id' :: string
  originalUrl :: string
  normalizedUrl :: string
  shortCode :: string
  customAlias :: "string option"
  createdAt :: int
  expiresAt :: "int option"
  clicks :: int
  clickHistory :: "ClickEvent list"
  password :: "string option"

section \<open>Strings\<close>

text \<open>
  Strings are restricted to ASCII: \<open>toLowerCase\<close> maps \<open>A..Z\<close> to \<open>a..z\<close> and \<open>trim\<close>
  removes the ASCII white space (tab, line feed, vertical tab, form feed, carriage return,
  space) from both ends.
\<close>

definition lower_char :: "char \<Rightarrow> char" where
  "lower_char c = (if CHR ''A'' \<le> c \<and> c \<le> CHR ''Z'' then char_of (of_char c + (32::nat)) else c)"

definition toLowerCase :: "string \<Rightarrow> string" where
  "toLowerCase s = map lower_char s"

definition is_space :: "char \<Rightarrow> bool" where
  "is_space c = (c \<in> set [CHR 0x09, CHR 0x0A, CHR 0x0B, CHR 0x0C, CHR 0x0D, CHR '' ''])"

definition trim :: "string \<Rightarrow> string" where
  "trim s = rev (dropWhile is_space (rev (dropWhile is_space s)))"

section \<open>Expiry predicate (src/utils/urlShortener.ts)\<close>

text \<open>
  \<open>isExpired\<close> reads the clock once; the reading is the first argument. The guard
  \<open>!expiresAt\<close> holds for \<open>null\<close> and for the number \<open>0\<close>.
\<close>

definition isExpired :: "int \<Rightarrow> int option \<Rightarrow> bool" where
  "isExpired now e =
     (case e of None \<Rightarrow> False
      | Some t \<Rightarrow> if t = 0 then False else t < now)"


section \<open>Persistent storage (src/utils/storage.ts)\<close>

text \<open>
  \<open>localStorage\<close> holds two keys: \<open>sniplink_urls\<close> and \<open>sniplink_rate_limit\<close>. The model
  keeps the decoded value of each (\<open>None\<close>: the key is absent). A write can fail: the
  browser decides, so the decision is a parameter, the \<open>device\<close>, which sees the current
  contents and the value to be written.
\<close>

record storage =
  urls_key :: "ShortenedUrl list option"
  rate_key :: "int list option"

datatype write_outcome = Written | QuotaExceededError | OtherFailure

record device =
  write_urls :: "storage \<Rightarrow> ShortenedUrl list \<Rightarrow> write_outcome"
  write_rate :: "storage \<Rightarrow> int list \<Rightarrow> write_outcome"

definition RATE_LIMIT_WINDOW :: int where
  "RATE_LIMIT_WINDOW = 60000"

definition RATE_LIMIT_MAX :: nat where
  "RATE_LIMIT_MAX = 10"

text \<open>The migration of \<open>loadUrls\<close>: an empty \<open>normalizedUrl\<close> is falsy and is recomputed.\<close>

definition migrate :: "ShortenedUrl \<Rightarrow> ShortenedUrl" where
  "migrate u =
     u\<lparr>normalizedUrl := (if normalizedUrl u = [] then toLowerCase (originalUrl u)
                          else normalizedUrl u)\<rparr>"

definition loadUrls :: "storage \<Rightarrow> ShortenedUrl list" where
  "loadUrls s = (case urls_key s of None \<Rightarrow> [] | Some us \<Rightarrow> map migrate us)"

record cleanup_result =
  removed :: nat
  trimmed :: nat
  urls :: "ShortenedUrl list"

definition gracePeriod :: int where
  "gracePeriod = 7 * 24 * 60 * 60 * 1000"

text \<open>The filter of \<open>cleanupExpiredUrls\<close>: which Records stay.\<close>

definition keep_url :: "int \<Rightarrow> ShortenedUrl \<Rightarrow> bool" where
  "keep_url now u =
     (case expiresAt u of None \<Rightarrow> True
      | Some e \<Rightarrow>
          if e = 0 then True
          else (let timeSinceExpiry = now - e in e > now \<or> timeSinceExpiry < gracePeriod))"

text \<open>\<open>slice(-1000)\<close>: the last 1000 elements.\<close>

definition slice_last :: "nat \<Rightarrow> 'a list \<Rightarrow> 'a list" where
  "slice_last k xs = drop (length xs - k) xs"

definition trim_history :: "ShortenedUrl \<Rightarrow> ShortenedUrl" where
  "trim_history u =
     (if length (clickHistory u) > 1000
      then u\<lparr>clickHistory := slice_last 1000 (clickHistory u)\<rparr>
      else u)"

text \<open>
  \<open>saveUrls\<close> calls \<open>cleanupExpiredUrls\<close> when the write fails for lack of space, and
  \<open>cleanupExpiredUrls\<close> calls \<open>saveUrls\<close> when it has something to write. The first
  argument bounds the depth of these nested calls; \<open>None\<close> means the bound was reached
  (the JavaScript stack is exhausted). Any other failure of the write is logged and
  swallowed. The clock reading \<open>now\<close> is shared by the nested calls.
\<close>

fun saveUrls :: "nat \<Rightarrow> device \<Rightarrow> int \<Rightarrow> ShortenedUrl list \<Rightarrow> storage \<Rightarrow> storage option"
and cleanupExpiredUrls :: "nat \<Rightarrow> device \<Rightarrow> int \<Rightarrow> storage \<Rightarrow> (cleanup_result \<times> storage) option"
where
  "saveUrls 0 dev now us s = None"
| "saveUrls (Suc n) dev now us s =
     (case write_urls dev s us of
        Written \<Rightarrow> Some (s\<lparr>urls_key := Some us\<rparr>)
      | QuotaExceededError \<Rightarrow> map_option snd (cleanupExpiredUrls n dev now s)
      | OtherFailure \<Rightarrow> Some s)"
| "cleanupExpiredUrls 0 dev now s = None"
| "cleanupExpiredUrls (Suc n) dev now s =
     (let all = loadUrls s;
          active = filter (keep_url now) all;
          trimmedCount = length (filter (\<lambda>u. length (clickHistory u) > 1000) active);
          trimmed_urls = map trim_history active;
          removed_count = length all - length active;
          res = \<lparr>removed = removed_count, trimmed = trimmedCount, urls = trimmed_urls\<rparr>
      in if removed_count > 0 \<or> trimmedCount > 0
         then map_option (\<lambda>s'. (res, s')) (saveUrls n dev now trimmed_urls s)
         else Some (res, s))"

text \<open>Each operation returns the list it hands to its caller and the storage it leaves.\<close>

definition addUrl ::
  "nat \<Rightarrow> device \<Rightarrow> int \<Rightarrow> ShortenedUrl \<Rightarrow> storage \<Rightarrow> (ShortenedUrl list \<times> storage) option" where
  "addUrl n dev now url s =
     (let us = url # loadUrls s
      in map_option (\<lambda>s'. (us, s')) (saveUrls n dev now us s))"

definition deleteUrl ::
  "nat \<Rightarrow> device \<Rightarrow> int \<Rightarrow> string \<Rightarrow> storage \<Rightarrow> (ShortenedUrl list \<times> storage) option" where
  "deleteUrl n dev now i s =
     (let us = filter (\<lambda>u. id' u \<noteq> i) (loadUrls s)
      in map_option (\<lambda>s'. (us, s')) (saveUrls n dev now us s))"

definition bulkDeleteUrls ::
  "nat \<Rightarrow> device \<Rightarrow> int \<Rightarrow> string set \<Rightarrow> storage \<Rightarrow> (ShortenedUrl list \<times> storage) option" where
  "bulkDeleteUrls n dev now ids s =
     (let us = filter (\<lambda>u. id' u \<notin> ids) (loadUrls s)
      in map_option (\<lambda>s'. (us, s')) (saveUrls n dev now us s))"

text \<open>
  \<open>incrementClicks\<close>: the metadata of the visit (referrer, device, time zone, user agent)
  is read from the browser; it is the argument \<open>ev\<close>, stamped with the clock reading.
\<close>

definition incrementClicks ::
  "nat \<Rightarrow> device \<Rightarrow> int \<Rightarrow> ClickEvent \<Rightarrow> string \<Rightarrow> storage \<Rightarrow> (ShortenedUrl list \<times> storage) option" where
  "incrementClicks n dev now ev i s =
     (let us = map (\<lambda>u. if id' u = i
                         then u\<lparr>clicks := clicks u + 1,
                                clickHistory := clickHistory u @ [ev\<lparr>timestamp := now\<rparr>]\<rparr>
                         else u) (loadUrls s)
      in map_option (\<lambda>s'. (us, s')) (saveUrls n dev now us s))"

subsection \<open>Uniqueness and allocation\<close>

definition isShortCodeUnique :: "storage \<Rightarrow> string \<Rightarrow> bool" where
  "isShortCodeUnique s code = (\<not> list_ex (\<lambda>u. shortCode u = code) (loadUrls s))"

definition findDuplicateUrl :: "storage \<Rightarrow> string \<Rightarrow> ShortenedUrl option" where
  "findDuplicateUrl s n = find (\<lambda>u. normalizedUrl u = n) (loadUrls s)"

text \<open>
  The generator is an impure function of an optional length. It is modelled as a function
  that also takes and returns the state \<open>'g\<close> of its source of randomness. One \<open>for\<close> loop
  of \<open>generateUniqueShortCode\<close> is \<open>attempts\<close>: up to \<open>k\<close> calls with the same argument.
\<close>

fun attempts ::
  "('g \<Rightarrow> nat option \<Rightarrow> string \<times> 'g) \<Rightarrow> nat option \<Rightarrow> nat \<Rightarrow> storage \<Rightarrow> 'g \<Rightarrow> string option \<times> 'g" where
  "attempts generator len 0 s g = (None, g)"
| "attempts generator len (Suc k) s g =
     (case generator g len of (code, g') \<Rightarrow>
        if isShortCodeUnique s code then (Some code, g')
        else attempts generator len k s g')"

definition generateUniqueShortCode ::
  "('g \<Rightarrow> nat option \<Rightarrow> string \<times> 'g) \<Rightarrow> nat \<Rightarrow> storage \<Rightarrow> 'g \<Rightarrow> string option \<times> 'g" where
  "generateUniqueShortCode generator maxRetries s g =
     (case attempts generator None maxRetries s g of
        (Some code, g1) \<Rightarrow> (Some code, g1)
      | (None, g1) \<Rightarrow>
          (case attempts generator (Some 9) 3 s g1 of
             (Some longerCode, g2) \<Rightarrow> (Some longerCode, g2)
           | (None, g2) \<Rightarrow>
               (case attempts generator (Some 11) 2 s g2 of
                  (Some evenLongerCode, g3) \<Rightarrow> (Some evenLongerCode, g3)
                | (None, g3) \<Rightarrow> (None, g3))))"

subsection \<open>Rate limiting\<close>

record rate_status =
  allowed :: bool
  remaining :: int
  resetIn :: int
  nextAvailable :: "int option"

definition loadRateLimit :: "storage \<Rightarrow> int list \<times> storage" where
  "loadRateLimit s = (case rate_key s of None \<Rightarrow> ([], s) | Some ts \<Rightarrow> (ts, s))"

text \<open>\<open>saveRateLimit\<close> does not catch: a failed write is an exception for the caller.\<close>

definition saveRateLimit :: "device \<Rightarrow> int list \<Rightarrow> storage \<Rightarrow> write_outcome + storage" where
  "saveRateLimit dev ts s =
     (case write_rate dev s ts of
        Written \<Rightarrow> Inr (s\<lparr>rate_key := Some ts\<rparr>)
      | e \<Rightarrow> Inl e)"

text \<open>\<open>Math.ceil(a / 1000)\<close> on an integer \<open>a\<close>.\<close>

definition ceil_div_1000 :: "int \<Rightarrow> int" where
  "ceil_div_1000 a = - ((- a) div 1000)"

definition checkRateLimit :: "int \<Rightarrow> storage \<Rightarrow> rate_status \<times> storage" where
  "checkRateLimit now s =
     (case loadRateLimit s of (ts, s1) \<Rightarrow>
        (let recent = filter (\<lambda>t. now - t < RATE_LIMIT_WINDOW) ts;
             ok = (length recent < RATE_LIMIT_MAX);
             rem = max 0 (int RATE_LIMIT_MAX - int (length recent))
         in if recent \<noteq> []
            then (let oldestTimestamp = Min (set recent)
                  in (\<lparr>allowed = ok, remaining = rem,
                       resetIn = ceil_div_1000 (RATE_LIMIT_WINDOW - (now - oldestTimestamp)),
                       nextAvailable =
                         (if \<not> ok \<and> length recent = RATE_LIMIT_MAX
                          then Some (oldestTimestamp + RATE_LIMIT_WINDOW) else None)\<rparr>, s1))
            else (\<lparr>allowed = ok, remaining = rem, resetIn = 0, nextAvailable = None\<rparr>, s1)))"

definition recordRateLimitHit :: "device \<Rightarrow> int \<Rightarrow> storage \<Rightarrow> write_outcome + storage" where
  "recordRateLimitHit dev now s =
     (case loadRateLimit s of (ts, s1) \<Rightarrow>
        (let recent = filter (\<lambda>t. now - t < RATE_LIMIT_WINDOW) ts
         in saveRateLimit dev (recent @ [now]) s1))"


section \<open>Code generator (src/utils/urlShortener.ts)\<close>

definition BASE62_CHARS :: string where
  "BASE62_CHARS = ''abcdefghijklmnopqrstuvwxyzABCDEFGHIJKLMNOPQRSTUVWXYZ0123456789''"

text \<open>
  One call of \<open>generateShortCode\<close> draws random bytes from \<open>crypto.getRandomValues\<close> and
  reads \<open>performance.now()\<close>. A \<open>draw\<close> holds both: \<open>bytes d i\<close> is the value stored at index
  \<open>i\<close> of the byte array (reduced modulo 256) and \<open>timing d\<close> is the whole part of
  \<open>performance.now() * 1000\<close>. For an integer \<open>a\<close> and a real \<open>x \<ge> 0\<close>,
  \<open>floor ((a + x % 62) % 62)\<close> is \<open>(a + floor x) mod 62\<close>; rounding of the floating-point
  sum is not modelled.
\<close>

record draw =
  bytes :: "nat \<Rightarrow> nat"
  timing :: nat

definition generateShortCode :: "draw \<Rightarrow> nat \<Rightarrow> string" where
  "generateShortCode d len =
     map (\<lambda>i. BASE62_CHARS !
                 (if i = 0 then (bytes d i mod 256 + timing d mod 62) mod 62
                  else bytes d i mod 256 mod 62))
         [0..<len]"

text \<open>
  The generator handed to \<open>generateUniqueShortCode\<close>: \<open>generateShortCode\<close> with its
  default length 7, consuming one draw of the stream per call.
\<close>

definition generator :: "(nat \<Rightarrow> draw) \<Rightarrow> nat option \<Rightarrow> string \<times> (nat \<Rightarrow> draw)" where
  "generator g len =
     (generateShortCode (g 0) (case len of None \<Rightarrow> 7 | Some l \<Rightarrow> l), \<lambda>i. g (Suc i))"

text \<open>\<open>isValidAlias\<close>: the regular expression \<open>^[a-zA-Z0-9_-]{3,30}$\<close>.\<close>

definition is_alnum :: "char \<Rightarrow> bool" where
  "is_alnum c = ((CHR ''a'' \<le> c \<and> c \<le> CHR ''z'') \<or> (CHR ''A'' \<le> c \<and> c \<le> CHR ''Z'')
                 \<or> (CHR ''0'' \<le> c \<and> c \<le> CHR ''9''))"

definition isValidAlias :: "string \<Rightarrow> bool" where
  "isValidAlias alias =
     (3 \<le> length alias \<and> length alias \<le> 30
      \<and> list_all (\<lambda>c. is_alnum c \<or> c = CHR ''_'' \<or> c = CHR ''-'') alias)"

section \<open>The creation form (src/components/ShortenForm.tsx)\<close>

datatype expiration = never | exp_1h | exp_24h | exp_7d | exp_30d

definition getExpirationTime :: "int \<Rightarrow> expiration \<Rightarrow> int option" where
  "getExpirationTime now e =
     (case e of
        exp_1h \<Rightarrow> Some (now + 3600000)
      | exp_24h \<Rightarrow> Some (now + 86400000)
      | exp_7d \<Rightarrow> Some (now + 604800000)
      | exp_30d \<Rightarrow> Some (now + 2592000000)
      | never \<Rightarrow> None)"

datatype form_error = InvalidAlias | AliasTaken | GenerationFailed

text \<open>
  The part of \<open>handleSubmit\<close> that chooses the short code: a custom alias when the switch
  is on and the trimmed alias is not empty, a generated code otherwise. An empty generated
  code is falsy and counts as a failure.
\<close>

definition choose_code ::
  "('g \<Rightarrow> nat option \<Rightarrow> string \<times> 'g) \<Rightarrow> bool \<Rightarrow> string \<Rightarrow> storage \<Rightarrow> 'g \<Rightarrow> form_error + string" where
  "choose_code gen useCustomAlias customAlias_in s g =
     (if useCustomAlias \<and> trim customAlias_in \<noteq> []
      then (let alias = trim customAlias_in
            in if \<not> isValidAlias alias then Inl InvalidAlias
               else if \<not> isShortCodeUnique s alias then Inl AliasTaken
               else Inr alias)
      else (case fst (generateUniqueShortCode gen 5 s g) of
              None \<Rightarrow> Inl GenerationFailed
            | Some generated \<Rightarrow> if generated = [] then Inl GenerationFailed else Inr generated))"

text \<open>
  What \<open>handleSubmit\<close> leaves for its timer: the values the callback closes over.
\<close>

record pending_creation =
  p_finalUrl :: string
  p_normalized :: string
  p_shortCode :: string
  p_useCustomAlias :: bool
  p_customAlias :: string
  p_expiration :: expiration
  p_password :: "string option"

text \<open>The Record built by the timer callback, 400 ms after the submission.\<close>

definition newUrl :: "string \<Rightarrow> int \<Rightarrow> pending_creation \<Rightarrow> ShortenedUrl" where
  "newUrl uuid now p =
     \<lparr>id' = uuid, originalUrl = p_finalUrl p, normalizedUrl = p_normalized p,
      shortCode = p_shortCode p,
      customAlias = (if p_useCustomAlias p then Some (trim (p_customAlias p)) else None),
      createdAt = now, expiresAt = getExpirationTime now (p_expiration p),
      clicks = 0, clickHistory = [], password = p_password p\<rparr>"

text \<open>
  The timers in flight. \<open>handleSubmit\<close> chooses the code, sets \<open>isCreating\<close> and starts a
  400 ms timer; the Record is written by the timer's callback. The submit button of the
  mounted form is disabled while \<open>isCreating\<close> is true, but the timer is never cleared:
  \<open>App\<close> unmounts the form when another tab of the page is shown and mounts a fresh one
  (with \<open>isCreating\<close> false) when the user comes back, and a second browser tab runs its
  own form over the same storage keys. So a submission can be made while the timers of
  earlier submissions are still pending, and \<open>pending\<close> is the list of all of them.
  The checks \<open>handleSubmit\<close> makes before it chooses the code (rate limit, validity of the
  URL, self reference, duplicate warning) can only abandon the request, so \<open>submit\<close> lets
  any URL pass. A forced duplicate is a \<open>submit\<close> like any other. The other steps are the
  operations of the list and of the redirect page; they can fall between a submission and
  its timer.
\<close>

record session =
  store :: storage
  pending :: "pending_creation list"

inductive step :: "device \<Rightarrow> session \<Rightarrow> session \<Rightarrow> bool" for dev :: device where
  submit:
    "choose_code generator useAlias alias (store st) g = Inr code \<Longrightarrow>
     step dev st (st\<lparr>pending := \<lparr>p_finalUrl = finalUrl, p_normalized = normalized,
        p_shortCode = code, p_useCustomAlias = useAlias, p_customAlias = alias,
        p_expiration = e, p_password = pw\<rparr> # pending st\<rparr>)"
| commit:
    "p \<in> set (pending st) \<Longrightarrow>
     addUrl n dev now (newUrl uuid now p) (store st) = Some (us, s1) \<Longrightarrow>
     s2 = (case recordRateLimitHit dev now' s1 of Inl err \<Rightarrow> s1 | Inr s' \<Rightarrow> s') \<Longrightarrow>
     step dev st \<lparr>store = s2, pending = remove1 p (pending st)\<rparr>"
| delete:
    "deleteUrl n dev now i (store st) = Some (us, s') \<Longrightarrow> step dev st (st\<lparr>store := s'\<rparr>)"
| bulk_delete:
    "bulkDeleteUrls n dev now ids (store st) = Some (us, s') \<Longrightarrow> step dev st (st\<lparr>store := s'\<rparr>)"
| visit:
    "incrementClicks n dev now ev i (store st) = Some (us, s') \<Longrightarrow> step dev st (st\<lparr>store := s'\<rparr>)"
| sweep:
    "cleanupExpiredUrls n dev now (store st) = Some (res, s') \<Longrightarrow> step dev st (st\<lparr>store := s'\<rparr>)"

definition initial :: session where
  "initial = \<lparr>store = \<lparr>urls_key = None, rate_key = None\<rparr>, pending = []\<rparr>"

inductive reachable :: "device \<Rightarrow> session \<Rightarrow> bool" for dev :: device where
  start: "reachable dev initial"
| next_step: "reachable dev st \<Longrightarrow> step dev st st' \<Longrightarrow> reachable dev st'"

text \<open>The lookup of the redirect page (\<open>handleHashRoute\<close> in src/App.tsx).\<close>

definition matches_code :: "string \<Rightarrow> ShortenedUrl \<Rightarrow> bool" where
  "matches_code c u = (shortCode u = c \<or> customAlias u = Some c)"


section \<open>URL normalisation (src/utils/urlShortener.ts)\<close>

text \<open>
  \<open>normalizeUrl\<close> works through the platform classes \<open>URL\<close> and \<open>URLSearchParams\<close> of the
  WHATWG URL standard. The model follows the standard on a part of its input space and
  answers \<open>Unsupported\<close> outside of it, so that it never guesses. Supported are strings of
  printable ASCII characters and spaces whose scheme is \<open>http\<close> or \<open>https\<close>, with no
  credentials, no IPv6 or IPv4 host, no punycode label and no percent sign in the host, no
  circumflex in the path (the standard changed there) and no percent-encoded byte above
  0x7F in the query. A string without a scheme is supported too: the parser fails on it.
\<close>

datatype 'a parse_result = Parsed 'a | Failure | Unsupported

record url =
  scheme :: string
  host :: string
  port :: "nat option"
  path :: "string list"
  query :: "string option"

definition printable :: "char \<Rightarrow> bool" where
  "printable c = (CHR 0x20 \<le> c \<and> c \<le> CHR 0x7E)"

definition is_digit :: "char \<Rightarrow> bool" where
  "is_digit c = (CHR ''0'' \<le> c \<and> c \<le> CHR ''9'')"

definition is_alpha :: "char \<Rightarrow> bool" where
  "is_alpha c = ((CHR ''a'' \<le> c \<and> c \<le> CHR ''z'') \<or> (CHR ''A'' \<le> c \<and> c \<le> CHR ''Z''))"

definition is_scheme_char :: "char \<Rightarrow> bool" where
  "is_scheme_char c = (is_alnum c \<or> c = CHR ''+'' \<or> c = CHR ''-'' \<or> c = CHR ''.'')"

definition is_slash :: "char \<Rightarrow> bool" where
  "is_slash c = (c = CHR ''/'' \<or> c = CHR 0x5C)"

subsection \<open>Splitting and joining\<close>

fun split_on :: "(char \<Rightarrow> bool) \<Rightarrow> string \<Rightarrow> string list" where
  "split_on P [] = [[]]"
| "split_on P (c # cs) =
     (let r = split_on P cs in if P c then [] # r else (c # hd r) # tl r)"

fun join :: "char \<Rightarrow> string list \<Rightarrow> string" where
  "join c [] = []"
| "join c [x] = x"
| "join c (x # y # ys) = x @ c # join c (y # ys)"

subsection \<open>Percent encoding\<close>

text \<open>The digit of a value below 16, in upper case: \<open>0..9\<close>, \<open>A..F\<close>.\<close>

definition hex_digit :: "nat \<Rightarrow> char" where
  "hex_digit n = (if n < 10 then char_of (of_char (CHR ''0'') + n)
                  else char_of (of_char (CHR ''A'') + (n - 10)))"

definition percent_encode_char :: "char \<Rightarrow> string" where
  "percent_encode_char c =
     [CHR ''%'', hex_digit (of_char c div 16), hex_digit (of_char c mod 16)]"

definition hex_val :: "char \<Rightarrow> nat option" where
  "hex_val c =
     (if is_digit c then Some (of_char c - of_char (CHR ''0''))
      else if CHR ''A'' \<le> c \<and> c \<le> CHR ''F'' then Some (of_char c - of_char (CHR ''A'') + 10)
      else if CHR ''a'' \<le> c \<and> c \<le> CHR ''f'' then Some (of_char c - of_char (CHR ''a'') + 10)
      else None)"

fun percent_decode :: "string \<Rightarrow> string" where
  "percent_decode (p # a # b # cs) =
     (if p = CHR ''%''
      then (case (hex_val a, hex_val b) of
              (Some x, Some y) \<Rightarrow> char_of (16 * x + y) # percent_decode cs
            | _ \<Rightarrow> p # percent_decode (a # b # cs))
      else p # percent_decode (a # b # cs))"
| "percent_decode cs = cs"

text \<open>
  The percent-encode sets of the standard, cut to printable ASCII: the query set, the
  special-query set (used for \<open>http\<close> and \<open>https\<close>) and the path set.
\<close>

definition in_query_set :: "char \<Rightarrow> bool" where
  "in_query_set c = (c = CHR '' '' \<or> c = CHR 0x22 \<or> c = CHR ''#'' \<or> c = CHR ''<'' \<or> c = CHR ''>'')"

definition in_special_query_set :: "char \<Rightarrow> bool" where
  "in_special_query_set c = (in_query_set c \<or> c = CHR 0x27)"

definition in_path_set :: "char \<Rightarrow> bool" where
  "in_path_set c = (in_query_set c \<or> c = CHR ''?'' \<or> c = CHR ''^'' \<or> c = CHR 0x60
                    \<or> c = CHR ''{'' \<or> c = CHR ''}'')"

definition percent_encode :: "(char \<Rightarrow> bool) \<Rightarrow> string \<Rightarrow> string" where
  "percent_encode S s = concat (map (\<lambda>c. if S c then percent_encode_char c else [c]) s)"

subsection \<open>application/x-www-form-urlencoded\<close>

definition parse_pair :: "string \<Rightarrow> string \<times> string" where
  "parse_pair piece =
     (let name = takeWhile (\<lambda>c. c \<noteq> CHR ''='') piece;
          val = (case dropWhile (\<lambda>c. c \<noteq> CHR ''='') piece of [] \<Rightarrow> [] | e # v \<Rightarrow> v);
          plus = (\<lambda>c. if c = CHR ''+'' then CHR '' '' else c)
      in (percent_decode (map plus name), percent_decode (map plus val)))"

definition parse_form :: "string \<Rightarrow> (string \<times> string) list" where
  "parse_form q = map parse_pair (filter (\<lambda>p. p \<noteq> []) (split_on (\<lambda>c. c = CHR ''&'') q))"

definition form_encode_char :: "char \<Rightarrow> string" where
  "form_encode_char c =
     (if is_alnum c \<or> c = CHR ''*'' \<or> c = CHR ''-'' \<or> c = CHR ''.'' \<or> c = CHR ''_'' then [c]
      else if c = CHR '' '' then ''+''
      else percent_encode_char c)"

definition form_encode :: "string \<Rightarrow> string" where
  "form_encode s = concat (map form_encode_char s)"

definition serialize_form :: "(string \<times> string) list \<Rightarrow> string" where
  "serialize_form es = join (CHR ''&'') (map (\<lambda>(k, v). form_encode k @ ''='' @ form_encode v) es)"

text \<open>
  \<open>[...params.entries()].sort()\<close>: each entry is an array \<open>[name, value]\<close>; the default
  comparison orders them by their string conversion \<open>name + "," + value\<close>, and the sort is
  stable.
\<close>

definition sort_entries :: "(string \<times> string) list \<Rightarrow> (string \<times> string) list" where
  "sort_entries es = sort_key (\<lambda>(k, v). k @ '','' @ v) es"

subsection \<open>The URL parser\<close>

fun dec :: "nat \<Rightarrow> string" where
  "dec n = (if n < 10 then [hex_digit n] else dec (n div 10) @ [hex_digit (n mod 10)])"

declare dec.simps [simp del]

definition parse_dec :: "string \<Rightarrow> nat" where
  "parse_dec ds = foldl (\<lambda>a c. 10 * a + (of_char c - of_char (CHR ''0''))) 0 ds"

definition default_port :: "string \<Rightarrow> nat option" where
  "default_port sch = (if sch = ''http'' then Some 80 else if sch = ''https'' then Some 443 else None)"

text \<open>A dot segment of a path, also in its percent-encoded spellings.\<close>

definition is_single_dot :: "string \<Rightarrow> bool" where
  "is_single_dot seg = (toLowerCase seg \<in> set [''.'', ''%2e''])"

definition is_double_dot :: "string \<Rightarrow> bool" where
  "is_double_dot seg = (toLowerCase seg \<in> set [''..'', ''.%2e'', ''%2e.'', ''%2e%2e''])"

text \<open>
  The path state: the segments still to come are consumed one by one. \<open>path_step\<close> is
  the segment that ends at a slash, \<open>path_last\<close> the one that ends with the input. The
  buffer holds the segment percent-encoded; a double-dot segment removes the last segment
  of the path.
\<close>

definition path_step :: "string list \<Rightarrow> string \<Rightarrow> string list" where
  "path_step acc seg =
     (let buffer = percent_encode in_path_set seg
      in if is_double_dot buffer then butlast acc
         else if is_single_dot buffer then acc
         else acc @ [buffer])"

definition path_last :: "string list \<Rightarrow> string \<Rightarrow> string list" where
  "path_last acc seg =
     (let buffer = percent_encode in_path_set seg
      in if is_double_dot buffer then butlast acc @ [[]]
         else if is_single_dot buffer then acc @ [[]]
         else acc @ [buffer])"

fun path_state :: "string list \<Rightarrow> string list \<Rightarrow> string list" where
  "path_state acc [] = acc"
| "path_state acc [seg] = path_last acc seg"
| "path_state acc (seg # segs) = path_state (path_step acc seg) segs"

text \<open>From the path start state on: one leading slash is skipped.\<close>

definition parse_path :: "string \<Rightarrow> string list" where
  "parse_path p =
     path_state [] (split_on is_slash (case p of [] \<Rightarrow> [] | c # cs \<Rightarrow> if is_slash c then cs else p))"

text \<open>
  Host characters the model follows: letters, digits, hyphen and dot. A space makes the
  host parser fail; any other character is left to \<open>Unsupported\<close>.
\<close>

definition is_host_char :: "char \<Rightarrow> bool" where
  "is_host_char c = (is_alnum c \<or> c = CHR ''-'' \<or> c = CHR ''.'')"

text \<open>
  Hosts the model does not follow: a label that starts with \<open>xn--\<close> (punycode), and a last
  label that is a number (all digits, or starting with \<open>0x\<close>), which the standard parses as an
  IPv4 address.
\<close>

definition host_unsupported :: "string \<Rightarrow> bool" where
  "host_unsupported h =
     (let labels = split_on (\<lambda>c. c = CHR ''.'') h;
          labels' = (if length labels > 1 \<and> last labels = [] then butlast labels else labels);
          l = last labels'
      in list_ex (\<lambda>lb. take 4 lb = ''xn--'') labels
         \<or> (l \<noteq> [] \<and> list_all is_digit l) \<or> take 2 l = ''0x'')"

definition url_strip :: "string \<Rightarrow> string" where
  "url_strip s = rev (dropWhile (\<lambda>c. c \<le> CHR 0x20) (rev (dropWhile (\<lambda>c. c \<le> CHR 0x20) s)))"

text \<open>
  After the scheme of a special URL: slashes and backslashes are skipped, the authority
  runs up to the next slash, backslash or question mark (the fragment is cut off before),
  the host up to the first colon, the port after it; then come the path and the query.
\<close>

definition parse_after_scheme :: "string \<Rightarrow> string \<Rightarrow> url parse_result" where
  "parse_after_scheme sch rest =
     (let rest3 = dropWhile is_slash rest;
          auth_end = (\<lambda>c. is_slash c \<or> c = CHR ''?'');
          auth = takeWhile (\<lambda>c. \<not> auth_end c) rest3;
          rest4 = dropWhile (\<lambda>c. \<not> auth_end c) rest3;
          hostS = takeWhile (\<lambda>c. c \<noteq> CHR '':'') auth;
          portS = dropWhile (\<lambda>c. c \<noteq> CHR '':'') auth;
          h = toLowerCase hostS;
          pathS = takeWhile (\<lambda>c. c \<noteq> CHR ''?'') rest4;
          queryS = dropWhile (\<lambda>c. c \<noteq> CHR ''?'') rest4
      in if list_ex (\<lambda>c. c = CHR ''@'' \<or> c = CHR ''['') auth then Unsupported
         else if hostS = [] then Failure
         else if list_ex (\<lambda>c. c = CHR '' '') hostS then Failure
         else if \<not> list_all is_host_char hostS \<or> host_unsupported h then Unsupported
         else if \<not> list_all is_digit (tl portS) then Failure
         else if parse_dec (tl portS) > 65535 then Failure
         else if list_ex (\<lambda>c. c = CHR ''^'') pathS then Unsupported
         else Parsed
           \<lparr>scheme = sch, host = h,
            port = (if tl portS = [] \<or> Some (parse_dec (tl portS)) = default_port sch
                    then None else Some (parse_dec (tl portS))),
            path = parse_path pathS,
            query = (case queryS of [] \<Rightarrow> None
                     | q # qs \<Rightarrow> Some (percent_encode in_special_query_set qs))\<rparr>)"

text \<open>
  \<open>new URL(input)\<close> without a base: leading and trailing spaces are stripped, the scheme
  must start with a letter and end at a colon, or the parser fails.
\<close>

definition URL_parse :: "string \<Rightarrow> url parse_result" where
  "URL_parse input =
     (let s = takeWhile (\<lambda>c. c \<noteq> CHR ''#'') (url_strip input);
          sch = takeWhile is_scheme_char s;
          rest1 = dropWhile is_scheme_char s
      in if s = [] \<or> \<not> is_alpha (hd s) \<or> rest1 = [] \<or> hd rest1 \<noteq> CHR '':'' then Failure
         else if toLowerCase sch \<noteq> ''http'' \<and> toLowerCase sch \<noteq> ''https'' then Unsupported
         else parse_after_scheme (toLowerCase sch) (tl rest1))"

subsection \<open>Getters, setters and the serialiser\<close>

definition pathname :: "url \<Rightarrow> string" where
  "pathname r = concat (map (\<lambda>seg. CHR ''/'' # seg) (path r))"

fun port_suffix :: "nat option \<Rightarrow> string" where
  "port_suffix None = []"
| "port_suffix (Some p) = CHR '':'' # dec p"

definition href :: "url \<Rightarrow> string" where
  "href r =
     scheme r @ ''://'' @ host r @ port_suffix (port r) @ pathname r
       @ (case query r of None \<Rightarrow> [] | Some q \<Rightarrow> CHR ''?'' # q)"

text \<open>\<open>url.search = v\<close>: the empty string clears the query; a leading \<open>?\<close> is dropped.\<close>

definition set_search :: "string \<Rightarrow> url \<Rightarrow> url" where
  "set_search v r =
     (if v = [] then r\<lparr>query := None\<rparr>
      else r\<lparr>query := Some (percent_encode in_special_query_set
                              (if hd v = CHR ''?'' then tl v else v))\<rparr>)"

definition set_pathname :: "string \<Rightarrow> url \<Rightarrow> url" where
  "set_pathname v r = r\<lparr>path := parse_path v\<rparr>"

text \<open>
  The entries of \<open>url.searchParams\<close>. \<open>None\<close>: a decoded byte is above 0x7F and would need
  UTF-8 decoding.
\<close>

definition searchParams :: "url \<Rightarrow> (string \<times> string) list option" where
  "searchParams r =
     (let es = parse_form (case query r of None \<Rightarrow> [] | Some q \<Rightarrow> q)
      in if list_all (\<lambda>(k, v). list_all (\<lambda>c. c < CHR 0x80) (k @ v)) es then Some es else None)"

subsection \<open>normalizeUrl\<close>

definition strip_slash :: "string \<Rightarrow> string" where
  "strip_slash p = (if length p > 1 \<and> last p = CHR ''/'' then butlast p else p)"

definition normalize_parsed :: "url \<Rightarrow> url option" where
  "normalize_parsed parsed =
     (let p1 = parsed\<lparr>host := toLowerCase (host parsed)\<rparr>;
          p2 = (if (scheme p1 = ''http'' \<and> port p1 = Some 80)
                   \<or> (scheme p1 = ''https'' \<and> port p1 = Some 443)
                then p1\<lparr>port := None\<rparr> else p1)
      in case searchParams p2 of
           None \<Rightarrow> None
         | Some params \<Rightarrow>
             (let sortedParams = sort_entries params;
                  p3 = set_search (if serialize_form sortedParams \<noteq> []
                                   then CHR ''?'' # serialize_form sortedParams else []) p2;
                  p4 = set_pathname (strip_slash (pathname p3)) p3
              in Some p4))"

definition normalizeUrl :: "string \<Rightarrow> string option" where
  "normalizeUrl u =
     (if \<not> list_all printable u then None
      else case URL_parse u of
             Unsupported \<Rightarrow> None
           | Failure \<Rightarrow> Some (trim (toLowerCase u))
           | Parsed parsed \<Rightarrow> map_option href (normalize_parsed parsed))"


section \<open>Scenarios\<close>

text \<open>A browser that never refuses a write.\<close>

definition always_writes :: device where
  "always_writes = \<lparr>write_urls = (\<lambda>s us. Written), write_rate = (\<lambda>s ts. Written)\<rparr>"

text \<open>
  A run of \<open>check()\<close> + \<open>record()\<close> pairs: pair \<open>(c, r)\<close> checks at clock reading \<open>c\<close> and
  records at \<open>r\<close>. The run returns the \<open>allowed\<close> answers in order.
\<close>

fun admit_all :: "device \<Rightarrow> (int \<times> int) list \<Rightarrow> storage \<Rightarrow> write_outcome + (bool list \<times> storage)" where
  "admit_all dev [] s = Inr ([], s)"
| "admit_all dev ((c, r) # ps) s =
     (case checkRateLimit c s of (st, s1) \<Rightarrow>
        (case recordRateLimitHit dev r s1 of
           Inl e \<Rightarrow> Inl e
         | Inr s2 \<Rightarrow>
             (case admit_all dev ps s2 of
                Inl e \<Rightarrow> Inl e
              | Inr (bs, s3) \<Rightarrow> Inr (allowed st # bs, s3))))"

text \<open>The timestamps a load of the rate-limit key returns.\<close>

definition window :: "storage \<Rightarrow> int list" where
  "window s = fst (loadRateLimit s)"

text \<open>
  The codes a generator hands out when it is called with the given arguments in turn, and
  the arguments \<open>generateUniqueShortCode\<close> uses when every attempt collides.
\<close>

fun draws :: "('g \<Rightarrow> nat option \<Rightarrow> string \<times> 'g) \<Rightarrow> nat option list \<Rightarrow> 'g \<Rightarrow> string list \<times> 'g" where
  "draws gen [] g = ([], g)"
| "draws gen (l # ls) g =
     (case gen g l of (c, g') \<Rightarrow>
        (case draws gen ls g' of (cs, g'') \<Rightarrow> (c # cs, g'')))"

definition tiers :: "nat option list" where
  "tiers = replicate 5 None @ replicate 3 (Some 9) @ replicate 2 (Some 11)"

text \<open>What one sweep computes from the stored Records.\<close>

definition swept :: "int \<Rightarrow> storage \<Rightarrow> ShortenedUrl list" where
  "swept now s = map trim_history (filter (keep_url now) (loadUrls s))"

definition sweep_result :: "int \<Rightarrow> storage \<Rightarrow> cleanup_result" where
  "sweep_result now s =
     \<lparr>removed = length (loadUrls s) - length (filter (keep_url now) (loadUrls s)),
      trimmed = length (filter (\<lambda>u. length (clickHistory u) > 1000)
                         (filter (keep_url now) (loadUrls s))),
      urls = swept now s\<rparr>"

definition sample_url :: "string \<Rightarrow> string \<Rightarrow> int option \<Rightarrow> ShortenedUrl" where
  "sample_url i code e =
     \<lparr>id' = i, originalUrl = ''https://example.com/a'', normalizedUrl = ''https://example.com/a'',
      shortCode = code, customAlias = None, createdAt = 0, expiresAt = e,
      clicks = 0, clickHistory = [], password = None\<rparr>"







definition day :: int where "day = 24 * 60 * 60 * 1000"

text \<open>
  Two submissions of the alias \<open>promo\<close>, the second made before the timer of the first has
  fired, and the storage after both timers have fired.
\<close>

definition demo_pending :: "string \<Rightarrow> bool \<Rightarrow> string \<Rightarrow> pending_creation" where
  "demo_pending code useAlias al =
     \<lparr>p_finalUrl = ''https://example.com/a'', p_normalized = ''https://example.com/a'',
      p_shortCode = code, p_useCustomAlias = useAlias, p_customAlias = al,
      p_expiration = never, p_password = None\<rparr>"

definition race_store :: storage where
  "race_store =
     \<lparr>urls_key = Some [newUrl ''id2'' 1500 (demo_pending ''promo'' True ''promo''),
                       newUrl ''id1'' 1400 (demo_pending ''promo'' True ''promo'')],
      rate_key = Some [1400, 1500]\<rparr>"


subsection \<open>Notions for the URL proofs\<close>

text \<open>
  A path segment as the parser leaves it: percent-encoded, without slash, and not a dot
  segment. \<open>strip_segs\<close> is the removal of one trailing slash, on the list of segments.
\<close>

definition wf_seg :: "string \<Rightarrow> bool" where
  "wf_seg seg = (list_all (\<lambda>c. printable c \<and> \<not> in_path_set c \<and> \<not> is_slash c) seg
                 \<and> \<not> is_single_dot seg \<and> \<not> is_double_dot seg)"
















text \<open>
  The pathname of the parsed input is stable under a second removal of a trailing slash:
  it does not end in two slashes, unless it is \<open>//\<close>. Inputs the parser rejects have no
  pathname.
\<close>

definition trailing_slash_stable :: "string \<Rightarrow> bool" where
  "trailing_slash_stable u =
     (case URL_parse u of
        Parsed r \<Rightarrow> strip_slash (strip_slash (pathname r)) = strip_slash (pathname r)
      | Failure \<Rightarrow> True
      | Unsupported \<Rightarrow> True)"


section \<open>Properties\<close>

subsection \<open>Expiry predicate\<close>

text \<open>
  C5 (amended). \<open>isExpired\<close> is a function of the clock reading and of \<open>expiresAt\<close> alone
  (no grace period). It is false for \<open>null\<close> and for the number 0, which the guard
  \<open>!expiresAt\<close> takes for "never expires"; it is false when \<open>expiresAt > now\<close>; and for a
  non-zero \<open>expiresAt < now\<close> it is true.
\<close>

theorem isExpired_cases:
  "\<not> isExpired now None \<and> \<not> isExpired now (Some 0)
   \<and> (now < e \<longrightarrow> \<not> isExpired now (Some e))
   \<and> (e \<noteq> 0 \<and> e < now \<longrightarrow> isExpired now (Some e))"
  by (simp add: isExpired_def)

theorem isExpired_cases_witness:
  "(1000::int) < 1001 \<and> \<not> isExpired 1000 (Some 1001)
   \<and> (999::int) \<noteq> 0 \<and> (999::int) < 1000 \<and> isExpired 1000 (Some 999)"
  using isExpired_cases [of 1000 1001] isExpired_cases [of 1000 999] by simp

text \<open>
  C5 as stated fails: \<open>expiresAt = 0\<close> lies before the clock reading 1, and the Record is
  not reported expired.
\<close>

theorem isExpired_zero_counterexample:
  "(0::int) < 1 \<and> \<not> isExpired 1 (Some 0)"
  by (simp add: isExpired_def)

subsection \<open>Rate limiter\<close>

lemma load_eq: "loadRateLimit s = (window s, s)"
  by (simp add: window_def loadRateLimit_def split: option.splits)

lemma check_allowed: "allowed (fst (checkRateLimit now s)) = (length (filter (\<lambda>t. now - t < RATE_LIMIT_WINDOW) (window s)) < RATE_LIMIT_MAX)"
  by (simp add: checkRateLimit_def window_def Let_def split: prod.splits)

lemma check_snd: "snd (checkRateLimit now s) = s"
  by (simp add: checkRateLimit_def loadRateLimit_def Let_def split: option.splits)

lemma window_alt: "window s = (case rate_key s of None \<Rightarrow> [] | Some ts \<Rightarrow> ts)"
  by (simp add: window_def loadRateLimit_def split: option.splits)

lemma record_eq:
  "write_rate dev s (filter (\<lambda>t. now - t < RATE_LIMIT_WINDOW) (window s) @ [now]) = Written \<Longrightarrow>
   recordRateLimitHit dev now s = Inr (s\<lparr>rate_key := Some (filter (\<lambda>t. now - t < RATE_LIMIT_WINDOW) (window s) @ [now])\<rparr>)"
  by (simp add: recordRateLimitHit_def saveRateLimit_def window_alt loadRateLimit_def Let_def split: option.splits)

lemma record_window:
  "write_rate dev s (filter (\<lambda>t. now - t < RATE_LIMIT_WINDOW) (window s) @ [now]) = Written \<Longrightarrow>
   \<exists>s'. recordRateLimitHit dev now s = Inr s' \<and> window s' = filter (\<lambda>t. now - t < RATE_LIMIT_WINDOW) (window s) @ [now]
     \<and> urls_key s' = urls_key s"
  by (simp add: record_eq) (simp add: window_alt)

lemma admit_all_allowed:
  "\<forall>s ts. write_rate dev s ts = Written \<Longrightarrow>
   length (window s) + length ps \<le> RATE_LIMIT_MAX \<Longrightarrow>
   \<forall>x \<in> set (window s) \<union> set (map snd ps). \<forall>y \<in> set (map snd ps). y - x < RATE_LIMIT_WINDOW \<Longrightarrow>
   \<exists>s'. admit_all dev ps s = Inr (replicate (length ps) True, s') \<and> window s' = window s @ map snd ps"
proof (induction ps arbitrary: s)
  case Nil
  then show ?case by simp
next
  case (Cons p ps)
  obtain c r where p: "p = (c, r)" by (cases p)
  have all: "filter (\<lambda>t. r - t < RATE_LIMIT_WINDOW) (window s) = window s"
    using Cons.prems(3) p by (auto simp: filter_id_conv)
  from record_window[of dev s r] Cons.prems(1) all
  obtain s2 where s2: "recordRateLimitHit dev r s = Inr s2" "window s2 = window s @ [r]"
    by auto
  have len: "length (window s2) + length ps \<le> RATE_LIMIT_MAX"
    using Cons.prems(2) s2 by simp
  have win: "\<forall>x \<in> set (window s2) \<union> set (map snd ps). \<forall>y \<in> set (map snd ps). y - x < RATE_LIMIT_WINDOW"
    using Cons.prems(3) s2 p by auto
  from Cons.IH[OF Cons.prems(1) len win]
  obtain s3 where s3: "admit_all dev ps s2 = Inr (replicate (length ps) True, s3)"
    "window s3 = window s2 @ map snd ps" by blast
  have "length (window s) < RATE_LIMIT_MAX"
    using Cons.prems(2) by simp
  with length_filter_le[of "\<lambda>t. c - t < RATE_LIMIT_WINDOW" "window s"]
  have "length (filter (\<lambda>t. c - t < RATE_LIMIT_WINDOW) (window s)) < RATE_LIMIT_MAX"
    by (rule le_less_trans)
  then have al: "allowed (fst (checkRateLimit c s))"
    by (simp only: check_allowed)
  obtain st where st: "checkRateLimit c s = (st, s)"
    using check_snd[of c s] by (cases "checkRateLimit c s") simp
  have "admit_all dev (p # ps) s = Inr (replicate (length (p # ps)) True, s3)"
    using s2 s3 al st p by simp
  then show ?case using s3 s2 p by simp
qed


text \<open>
  C6. Ten \<open>check()\<close> + \<open>record()\<close> pairs on an empty window, recorded at non-decreasing
  clock readings, all answer \<open>allowed\<close>; a check at a reading \<open>t\<close> not before the last
  record and less than 60000 ms after the first record is refused, with \<open>nextAvailable\<close>
  the first recorded timestamp + 60000; a check at any reading after that instant is
  allowed again. The browser is assumed to accept the writes of the window.
\<close>

theorem rate_limiter_window:
  assumes dev: "\<forall>s ts. write_rate dev s ts = Written"
    and empty: "rate_key s = None"
    and ten: "length ps = 10"
    and mono: "sorted (map snd ps @ [t])"
    and quick: "t - snd (hd ps) < 60000"
  shows "\<exists>s'. admit_all dev ps s = Inr (replicate 10 True, s')
           \<and> \<not> allowed (fst (checkRateLimit t s'))
           \<and> nextAvailable (fst (checkRateLimit t s')) = Some (snd (hd ps) + 60000)
           \<and> (snd (hd ps) + 60000 < t' \<longrightarrow> allowed (fst (checkRateLimit t' s')))"
proof -
  let ?rs = "map snd ps"
  have ne: "ps \<noteq> []" using ten by auto
  have hd: "hd ?rs = snd (hd ps)" using ne by (simp add: hd_map)
  have w0: "window s = []" using empty by (simp add: window_alt)
  have lo: "\<forall>x \<in> set ?rs. hd ?rs \<le> x"
    using mono ne by (cases ps) (auto simp: sorted_append)
  have hi: "\<forall>x \<in> set ?rs. x \<le> t"
    using mono by (auto simp: sorted_append)
  have win: "\<forall>x \<in> set (window s) \<union> set ?rs. \<forall>y \<in> set ?rs. y - x < RATE_LIMIT_WINDOW"
    using lo hi quick hd w0 by (fastforce simp: RATE_LIMIT_WINDOW_def)
  have len: "length (window s) + length ps \<le> RATE_LIMIT_MAX"
    using w0 ten by (simp add: RATE_LIMIT_MAX_def)
  from admit_all_allowed[OF dev len win] obtain s' where
    s': "admit_all dev ps s = Inr (replicate (length ps) True, s')" "window s' = ?rs"
    using w0 by auto
  have all_t: "filter (\<lambda>x. t - x < RATE_LIMIT_WINDOW) ?rs = ?rs"
    using lo quick hd by (fastforce simp: RATE_LIMIT_WINDOW_def filter_id_conv)
  have min: "Min (set ?rs) = snd (hd ps)"
  proof (rule Min_eqI)
    show "finite (set ?rs)" by simp
    show "\<And>y. y \<in> set ?rs \<Longrightarrow> snd (hd ps) \<le> y" using lo hd by auto
    show "snd (hd ps) \<in> set ?rs" using ne hd by (metis hd_in_set map_is_Nil_conv)
  qed
  have rs_ne: "?rs \<noteq> []" using ne by simp
  have chk: "fst (checkRateLimit t s') = \<lparr>allowed = False, remaining = 0,
       resetIn = ceil_div_1000 (RATE_LIMIT_WINDOW - (t - snd (hd ps))),
       nextAvailable = Some (snd (hd ps) + RATE_LIMIT_WINDOW)\<rparr>"
    using s'(2) all_t min rs_ne ten
    by (simp add: checkRateLimit_def load_eq Let_def RATE_LIMIT_MAX_def)
  have later: "allowed (fst (checkRateLimit t' s'))" if "snd (hd ps) + 60000 < t'"
  proof -
    have "snd (hd ps) \<in> set ?rs" using ne hd by (metis hd_in_set map_is_Nil_conv)
    moreover have "\<not> t' - snd (hd ps) < RATE_LIMIT_WINDOW"
      using that by (simp add: RATE_LIMIT_WINDOW_def)
    ultimately have "length (filter (\<lambda>x. t' - x < RATE_LIMIT_WINDOW) ?rs) < length ?rs"
      by (intro length_filter_less) auto
    then show ?thesis
      using ten s'(2) by (simp only: check_allowed) (simp add: RATE_LIMIT_MAX_def)
  qed
  show ?thesis
    using s'(1) chk later ten by (auto simp: RATE_LIMIT_WINDOW_def)
qed


theorem rate_limiter_window_witness:
  "\<exists>s'. admit_all always_writes
           [(0, 1), (2, 3), (4, 5), (6, 7), (8, 9), (10, 11), (12, 13), (14, 15), (16, 17), (18, 19)]
           \<lparr>urls_key = None, rate_key = None\<rparr> = Inr (replicate 10 True, s')
         \<and> \<not> allowed (fst (checkRateLimit 20 s'))
         \<and> nextAvailable (fst (checkRateLimit 20 s')) = Some 60001
         \<and> allowed (fst (checkRateLimit 60002 s'))"
  using rate_limiter_window [of always_writes "\<lparr>urls_key = None, rate_key = None\<rparr>"
      "[(0, 1), (2, 3), (4, 5), (6, 7), (8, 9), (10, 11), (12, 13), (14, 15), (16, 17), (18, 19)]"
      20 60002]
  by (simp add: always_writes_def)

subsection \<open>Allocator\<close>

lemma draws_append:
  "draws gen (xs @ ys) g =
     (case draws gen xs g of (cs, g') \<Rightarrow>
        (case draws gen ys g' of (ds, g'') \<Rightarrow> (cs @ ds, g'')))"
  by (induction xs arbitrary: g) (auto split: prod.splits)

lemma attempts_draws:
  "fst (attempts gen len k s g) = find (isShortCodeUnique s) (fst (draws gen (replicate k len) g))
   \<and> (fst (attempts gen len k s g) = None \<longrightarrow>
        snd (attempts gen len k s g) = snd (draws gen (replicate k len) g))"
  by (induction k arbitrary: g) (auto split: prod.splits)

lemma attempts_cases:
  obtains (found) c g' where "attempts gen len k s g = (Some c, g')"
      "find (isShortCodeUnique s) (fst (draws gen (replicate k len) g)) = Some c"
  | (none) "attempts gen len k s g = (None, snd (draws gen (replicate k len) g))"
      "find (isShortCodeUnique s) (fst (draws gen (replicate k len) g)) = None"
  using attempts_draws[of gen len k s g]
  by (cases "attempts gen len k s g"; cases "fst (attempts gen len k s g)") auto

lemma find_append_Some: "find P xs = Some c \<Longrightarrow> find P (xs @ ys) = Some c"
  by (induction xs) (auto split: if_splits)

lemma find_append_None: "find P xs = None \<Longrightarrow> find P (xs @ ys) = find P ys"
  by (induction xs) (auto split: if_splits)

lemma generate_find:
  "fst (generateUniqueShortCode gen 5 s g) = find (isShortCodeUnique s) (fst (draws gen tiers g))"
proof -
  let ?a = "replicate 5 None" and ?b = "replicate 3 (Some (9::nat))" and ?c = "replicate 2 (Some (11::nat))"
  obtain c1 g1 where d1: "draws gen ?a g = (c1, g1)" by (cases "draws gen ?a g")
  obtain c2 g2 where d2: "draws gen ?b g1 = (c2, g2)" by (cases "draws gen ?b g1")
  obtain c3 g3 where d3: "draws gen ?c g2 = (c3, g3)" by (cases "draws gen ?c g2")
  have all: "fst (draws gen tiers g) = c1 @ c2 @ c3"
    unfolding tiers_def by (simp only: draws_append d1 d2 d3 prod.case fst_conv)
  show ?thesis
  proof (cases rule: attempts_cases[of gen None 5 s g])
    case (found c g')
    then show ?thesis
      by (simp add: generateUniqueShortCode_def all d1 find_append_Some)
  next
    case none
    note n1 = this
    show ?thesis
    proof (cases rule: attempts_cases[of gen "Some 9" 3 s g1])
      case (found c g')
      then show ?thesis using n1
        by (simp add: generateUniqueShortCode_def all d1 d2 find_append_Some find_append_None)
    next
      case none
      note n2 = this
      show ?thesis
      proof (cases rule: attempts_cases[of gen "Some 11" 2 s g2])
        case (found c g')
        then show ?thesis using n1 n2
          by (simp add: generateUniqueShortCode_def all d1 d2 d3 find_append_None)
      next
        case none
        then show ?thesis using n1 n2
          by (simp add: generateUniqueShortCode_def all d1 d2 d3 find_append_None)
      qed
    qed
  qed
qed

lemma length_generateShortCode: "length (generateShortCode d len) = len"
  by (simp add: generateShortCode_def)

lemma generator_lengths:
  "map length (fst (draws generator ls g)) = map (\<lambda>l. case l of None \<Rightarrow> 7 | Some n \<Rightarrow> n) ls"
proof (induction ls arbitrary: g)
  case Nil
  then show ?case by simp
next
  case (Cons l ls)
  obtain cs g' where d: "draws generator ls (\<lambda>i. g (Suc i)) = (cs, g')"
    by (cases "draws generator ls (\<lambda>i. g (Suc i))")
  from Cons[of "\<lambda>i. g (Suc i)"] d
  have "map length cs = map (\<lambda>l. case l of None \<Rightarrow> 7 | Some n \<Rightarrow> n) ls" by simp
  moreover have "generator g l =
      (generateShortCode (g 0) (case l of None \<Rightarrow> 7 | Some n \<Rightarrow> n), \<lambda>i. g (Suc i))"
    by (simp add: generator_def)
  ultimately show ?case
    using d by (simp add: length_generateShortCode)
qed

text \<open>
  C7. With \<open>generateShortCode\<close> as generator and the default of 5 retries,
  \<open>generateUniqueShortCode\<close> returns the first code that is unique in the Store among ten
  candidates drawn in order: five of length 7, three of length 9, two of length 11. It
  returns \<open>null\<close> exactly when all ten collide.
\<close>

theorem allocator_escalation:
  "fst (generateUniqueShortCode generator 5 s g) = find (isShortCodeUnique s) (fst (draws generator tiers g))
   \<and> map length (fst (draws generator tiers g)) = [7, 7, 7, 7, 7, 9, 9, 9, 11, 11]
   \<and> (fst (generateUniqueShortCode generator 5 s g) = None) =
       list_all (\<lambda>c. \<not> isShortCodeUnique s c) (fst (draws generator tiers g))"
proof -
  have "(find P xs = None) = list_all (\<lambda>c. \<not> P c) xs" for P and xs :: "string list"
    by (induction xs) auto
  then show ?thesis
    by (simp add: generate_find generator_lengths) (simp add: tiers_def numeral_eq_Suc)
qed

lemma cleanup_Suc:
  "cleanupExpiredUrls (Suc n) dev now s =
     (if removed (sweep_result now s) > 0 \<or> trimmed (sweep_result now s) > 0
      then map_option (\<lambda>s'. (sweep_result now s, s')) (saveUrls n dev now (swept now s) s)
      else Some (sweep_result now s, s))"
  by (simp add: sweep_result_def swept_def Let_def)

lemma saveUrls_cases:
  "(saveUrls n dev now us s = Some s' \<longrightarrow>
      s' = s \<or> s' = s\<lparr>urls_key := Some us\<rparr> \<or> s' = s\<lparr>urls_key := Some (swept now s)\<rparr>) \<and>
   (cleanupExpiredUrls n dev now s = Some (r, s') \<longrightarrow>
      r = sweep_result now s \<and> (s' = s \<or> s' = s\<lparr>urls_key := Some (swept now s)\<rparr>))"
proof (induction n arbitrary: us s' r)
  case 0
  then show ?case by simp
next
  case (Suc n)
  have sv: "s' = s \<or> s' = s\<lparr>urls_key := Some us\<rparr> \<or> s' = s\<lparr>urls_key := Some (swept now s)\<rparr>"
    if a: "saveUrls (Suc n) dev now us s = Some s'"
  proof (cases "write_urls dev s us")
    case Written
    with a show ?thesis by auto
  next
    case QuotaExceededError
    with a obtain r0 where "cleanupExpiredUrls n dev now s = Some (r0, s')" by auto
    with Suc show ?thesis by blast
  next
    case OtherFailure
    with a show ?thesis by auto
  qed
  have cl: "r = sweep_result now s \<and> (s' = s \<or> s' = s\<lparr>urls_key := Some (swept now s)\<rparr>)"
    if a: "cleanupExpiredUrls (Suc n) dev now s = Some (r, s')"
  proof (cases "removed (sweep_result now s) > 0 \<or> trimmed (sweep_result now s) > 0")
    case True
    with a have "r = sweep_result now s" "saveUrls n dev now (swept now s) s = Some s'"
      by (auto simp: cleanup_Suc simp del: cleanupExpiredUrls.simps)
    with Suc[of "swept now s" s'] show ?thesis by blast
  next
    case False
    with a show ?thesis by (auto simp: cleanup_Suc simp del: cleanupExpiredUrls.simps)
  qed
  show ?case using sv cl by blast
qed

lemma saveUrls_result:
  "saveUrls n dev now us s = Some s' \<Longrightarrow>
     s' = s \<or> s' = s\<lparr>urls_key := Some us\<rparr> \<or> s' = s\<lparr>urls_key := Some (swept now s)\<rparr>"
  using saveUrls_cases by blast

lemma cleanup_result:
  "cleanupExpiredUrls n dev now s = Some (r, s') \<Longrightarrow>
     r = sweep_result now s \<and> (s' = s \<or> s' = s\<lparr>urls_key := Some (swept now s)\<rparr>)"
  using saveUrls_cases by blast

lemma saveUrls_rate: "saveUrls n dev now us s = Some s' \<Longrightarrow> rate_key s' = rate_key s"
  by (drule saveUrls_result) auto

lemma cleanup_rate: "cleanupExpiredUrls n dev now s = Some (r, s') \<Longrightarrow> rate_key s' = rate_key s"
  by (drule cleanup_result) auto

text \<open>
  C10. \<open>checkRateLimit\<close> returns the storage as it found it: the timestamps it filters
  out are dropped from its answer only. Every operation on the Records leaves the
  rate-limit key as it was, and \<open>recordRateLimitHit\<close>, the one caller of \<open>saveRateLimit\<close>,
  rewrites the window and nothing else.
\<close>

theorem rate_window_frame:
  "snd (checkRateLimit now s) = s
   \<and> (saveUrls n dev now us s = Some s1 \<longrightarrow> rate_key s1 = rate_key s)
   \<and> (cleanupExpiredUrls n dev now s = Some (r, s2) \<longrightarrow> rate_key s2 = rate_key s)
   \<and> (addUrl n dev now u s = Some (l3, s3) \<longrightarrow> rate_key s3 = rate_key s)
   \<and> (deleteUrl n dev now i s = Some (l4, s4) \<longrightarrow> rate_key s4 = rate_key s)
   \<and> (bulkDeleteUrls n dev now ids s = Some (l5, s5) \<longrightarrow> rate_key s5 = rate_key s)
   \<and> (incrementClicks n dev now ev i s = Some (l6, s6) \<longrightarrow> rate_key s6 = rate_key s)
   \<and> (recordRateLimitHit dev now s = Inr s7 \<longrightarrow>
        urls_key s7 = urls_key s
        \<and> rate_key s7 = Some (filter (\<lambda>t. now - t < RATE_LIMIT_WINDOW) (window s) @ [now]))"
proof -
  have 7: "urls_key s7 = urls_key s
        \<and> rate_key s7 = Some (filter (\<lambda>t. now - t < RATE_LIMIT_WINDOW) (window s) @ [now])"
    if "recordRateLimitHit dev now s = Inr s7"
    using that
    by (auto simp: recordRateLimitHit_def saveRateLimit_def load_eq Let_def split: write_outcome.splits)
  show ?thesis
    using 7 by (auto simp: check_snd addUrl_def deleteUrl_def bulkDeleteUrls_def incrementClicks_def
        Let_def dest: saveUrls_rate cleanup_rate)
qed

lemma migrate_idem: "migrate (migrate u) = migrate u"
  by (simp add: migrate_def)

lemma migrate_loaded: "u \<in> set (loadUrls s) \<Longrightarrow> migrate u = u"
  by (auto simp: loadUrls_def migrate_idem split: option.splits)

lemma map_migrate_load: "map migrate (loadUrls s) = loadUrls s"
  by (simp add: map_idI migrate_loaded)




lemma load_after_write: "loadUrls (s\<lparr>urls_key := Some us\<rparr>) = map migrate us"
  by (simp add: loadUrls_def)


text \<open>
  C2, as the code has it. \<open>addUrl\<close> makes no conflict check: it puts the Record in front
  of the loaded list and writes the list. When the browser accepts the write, the Store
  holds the new Record followed by the previous ones, whatever their codes.
\<close>

theorem addUrl_prepends:
  assumes "write_urls dev s (url # loadUrls s) = Written"
  shows "addUrl (Suc n) dev now url s
           = Some (url # loadUrls s, s\<lparr>urls_key := Some (url # loadUrls s)\<rparr>)
         \<and> loadUrls (s\<lparr>urls_key := Some (url # loadUrls s)\<rparr>) = migrate url # loadUrls s"
  using assms by (simp add: addUrl_def Let_def load_after_write map_migrate_load)

text \<open>
  C2, as the claim states it, fails: the Store holds a Record with the code \<open>abc\<close>,
  \<open>addUrl\<close> is given another Record with the same code, and it returns normally with
  both Records stored.
\<close>

theorem addUrl_conflict_counterexample:
  "\<not> isShortCodeUnique \<lparr>urls_key = Some [sample_url ''id1'' ''abc'' None], rate_key = None\<rparr> ''abc''
   \<and> addUrl 1 always_writes 0 (sample_url ''id2'' ''abc'' None)
        \<lparr>urls_key = Some [sample_url ''id1'' ''abc'' None], rate_key = None\<rparr>
      = Some ([sample_url ''id2'' ''abc'' None, sample_url ''id1'' ''abc'' None],
              \<lparr>urls_key = Some [sample_url ''id2'' ''abc'' None, sample_url ''id1'' ''abc'' None],
               rate_key = None\<rparr>)"
  by (simp add: isShortCodeUnique_def addUrl_def loadUrls_def migrate_def sample_url_def
      always_writes_def Let_def)

theorem addUrl_prepends_witness:
  "write_urls always_writes \<lparr>urls_key = Some [sample_url ''id1'' ''abc'' None], rate_key = None\<rparr>
     (sample_url ''id2'' ''abc'' None
        # loadUrls \<lparr>urls_key = Some [sample_url ''id1'' ''abc'' None], rate_key = None\<rparr>) = Written
   \<and> loadUrls (\<lparr>urls_key = Some [sample_url ''id1'' ''abc'' None], rate_key = None\<rparr>
        \<lparr>urls_key := Some (sample_url ''id2'' ''abc'' None
           # loadUrls \<lparr>urls_key = Some [sample_url ''id1'' ''abc'' None], rate_key = None\<rparr>)\<rparr>)
      = [sample_url ''id2'' ''abc'' None, sample_url ''id1'' ''abc'' None]"
  using addUrl_prepends [of always_writes
      "\<lparr>urls_key = Some [sample_url ''id1'' ''abc'' None], rate_key = None\<rparr>"
      "sample_url ''id2'' ''abc'' None" 0 0]
  by (simp add: always_writes_def loadUrls_def migrate_def sample_url_def)

subsection \<open>Failed writes\<close>




subsection \<open>Sweep\<close>













text \<open>
  The sweep at the instant a Record has been expired for exactly seven days: the Record
  is removed.
\<close>

lemma sweep_at_seven_days:
  "100 * day - 93 * day = gracePeriod
   \<and> cleanupExpiredUrls 2 always_writes (100 * day)
        \<lparr>urls_key = Some [sample_url ''id1'' ''abc'' (Some (93 * day))], rate_key = None\<rparr>
      = Some (\<lparr>removed = 1, trimmed = 0, urls = []\<rparr>, \<lparr>urls_key = Some [], rate_key = None\<rparr>)"
  by (simp add: numeral_2_eq_2 always_writes_def loadUrls_def migrate_def sample_url_def
      keep_url_def gracePeriod_def day_def Let_def)

subsection \<open>Uniqueness of codes\<close>

lemma unique_not_in: "isShortCodeUnique s code = (code \<notin> set (map shortCode (loadUrls s)))"
  by (auto simp: isShortCodeUnique_def list_ex_iff)

text \<open>Every code \<open>handleSubmit\<close> accepts is absent from the Store when it is accepted.\<close>

lemma choose_code_unique:
  assumes "choose_code gen useAlias al s g = Inr code"
  shows "isShortCodeUnique s code"
proof (cases "useAlias \<and> trim al \<noteq> []")
  case True
  then show ?thesis using assms by (auto simp: choose_code_def Let_def split: if_splits)
next
  case False
  then obtain c where c: "fst (generateUniqueShortCode gen 5 s g) = Some c" "code = c"
    using assms by (auto simp: choose_code_def split: option.splits if_splits)
  then have "find (isShortCodeUnique s) (fst (draws gen tiers g)) = Some code"
    by (simp add: generate_find)
  then show ?thesis by (auto simp: find_Some_iff)
qed

lemma trim_promo: "trim ''promo'' = ''promo''"
  by (simp add: trim_def is_space_def)

lemma valid_promo: "isValidAlias ''promo''"
  by (simp add: isValidAlias_def is_alnum_def)

lemma choose_alias:
  assumes "isValidAlias (trim al)" "isShortCodeUnique s (trim al)"
  shows "choose_code generator True al s g = Inr (trim al)"
proof -
  have "trim al \<noteq> []" using assms(1) by (auto simp: isValidAlias_def)
  then show ?thesis using assms by (simp add: choose_code_def)
qed

lemma demo_submit:
  assumes "choose_code generator ua al (store st) g = Inr code"
  shows "step dev st (st\<lparr>pending := demo_pending code ua al # pending st\<rparr>)"
  unfolding demo_pending_def using assms by (rule step.submit)

lemma demo_commit:
  assumes "p \<in> set (pending st)"
  shows "step always_writes st
     \<lparr>store = \<lparr>urls_key = Some (newUrl uuid now p # loadUrls (store st)),
               rate_key = Some (filter (\<lambda>t. now - t < RATE_LIMIT_WINDOW) (window (store st)) @ [now])\<rparr>,
      pending = remove1 p (pending st)\<rparr>"
proof (rule step.commit[OF assms, where n = 1 and now = now and now' = now and uuid = uuid])
  show "addUrl 1 always_writes now (newUrl uuid now p) (store st)
      = Some (newUrl uuid now p # loadUrls (store st),
              (store st)\<lparr>urls_key := Some (newUrl uuid now p # loadUrls (store st))\<rparr>)"
    by (simp add: addUrl_def always_writes_def Let_def)
  show "\<lparr>urls_key = Some (newUrl uuid now p # loadUrls (store st)),
         rate_key = Some (filter (\<lambda>t. now - t < RATE_LIMIT_WINDOW) (window (store st)) @ [now])\<rparr>
      = (case recordRateLimitHit always_writes now
                ((store st)\<lparr>urls_key := Some (newUrl uuid now p # loadUrls (store st))\<rparr>) of
           Inl err \<Rightarrow> (store st)\<lparr>urls_key := Some (newUrl uuid now p # loadUrls (store st))\<rparr>
         | Inr s' \<Rightarrow> s')"
    by (simp add: recordRateLimitHit_def saveRateLimit_def load_eq always_writes_def window_alt)
qed

lemma race_reachable: "reachable always_writes \<lparr>store = race_store, pending = []\<rparr>"
proof -
  let ?p = "demo_pending ''promo'' True ''promo''"
  let ?u1 = "newUrl ''id1'' 1400 ?p" and ?u2 = "newUrl ''id2'' 1500 ?p"
  let ?s0 = "\<lparr>urls_key = None, rate_key = None\<rparr>"
  let ?s1 = "\<lparr>urls_key = Some [?u1], rate_key = Some [1400]\<rparr>"
  have l1: "loadUrls ?s1 = [?u1]"
    by (simp add: loadUrls_def migrate_def newUrl_def demo_pending_def)
  have c: "choose_code generator True ''promo'' ?s0 g = Inr ''promo''" for g
    using choose_alias[of "''promo''" ?s0 g]
    by (simp add: trim_promo valid_promo isShortCodeUnique_def loadUrls_def)
  have r0: "reachable always_writes \<lparr>store = ?s0, pending = []\<rparr>"
    using reachable.start[of always_writes] by (simp add: initial_def)
  have "step always_writes \<lparr>store = ?s0, pending = []\<rparr> \<lparr>store = ?s0, pending = [?p]\<rparr>"
    using demo_submit[of True "''promo''" "\<lparr>store = ?s0, pending = []\<rparr>" _ "''promo''" always_writes] c
    by simp
  with r0 have r1: "reachable always_writes \<lparr>store = ?s0, pending = [?p]\<rparr>"
    by (rule reachable.next_step)
  have "step always_writes \<lparr>store = ?s0, pending = [?p]\<rparr> \<lparr>store = ?s0, pending = [?p, ?p]\<rparr>"
    using demo_submit[of True "''promo''" "\<lparr>store = ?s0, pending = [?p]\<rparr>" _ "''promo''" always_writes] c
    by simp
  with r1 have r2: "reachable always_writes \<lparr>store = ?s0, pending = [?p, ?p]\<rparr>"
    by (rule reachable.next_step)
  have "step always_writes \<lparr>store = ?s0, pending = [?p, ?p]\<rparr> \<lparr>store = ?s1, pending = [?p]\<rparr>"
    using demo_commit[of ?p "\<lparr>store = ?s0, pending = [?p, ?p]\<rparr>" "''id1''" 1400]
    by (simp add: loadUrls_def window_alt)
  with r2 have r3: "reachable always_writes \<lparr>store = ?s1, pending = [?p]\<rparr>"
    by (rule reachable.next_step)
  have "step always_writes \<lparr>store = ?s1, pending = [?p]\<rparr> \<lparr>store = race_store, pending = []\<rparr>"
    using demo_commit[of ?p "\<lparr>store = ?s1, pending = [?p]\<rparr>" "''id2''" 1500]
    by (simp add: l1 window_alt RATE_LIMIT_WINDOW_def race_store_def)
  with r3 show ?thesis
    by (rule reachable.next_step)
qed

lemma race_load:
  "loadUrls race_store = [newUrl ''id2'' 1500 (demo_pending ''promo'' True ''promo''),
                          newUrl ''id1'' 1400 (demo_pending ''promo'' True ''promo'')]"
  by (simp add: race_store_def loadUrls_def migrate_def newUrl_def demo_pending_def)

text \<open>
  C1 (uniqueness of codes and aliases in every reachable state). The invariant does not
  hold: the alias \<open>promo\<close> is submitted twice before either timer has fired, both
  submissions pass \<open>isShortCodeUnique\<close> on the empty Store, and both timers then call
  \<open>addUrl\<close>, which checks nothing. The state reached holds two Records whose
  \<open>shortCode\<close> and \<open>customAlias\<close> are both \<open>promo\<close>, and the lookup of the redirect page
  finds two Records for that code.
\<close>

theorem duplicate_code_reachable:
  "reachable always_writes \<lparr>store = race_store, pending = []\<rparr>
   \<and> isShortCodeUnique (store initial) ''promo''
   \<and> map shortCode (loadUrls race_store) = [''promo'', ''promo'']
   \<and> map customAlias (loadUrls race_store) = [Some ''promo'', Some ''promo'']
   \<and> \<not> distinct (map shortCode (loadUrls race_store))
   \<and> length (filter (matches_code ''promo'') (loadUrls race_store)) = 2"
proof -
  have "isShortCodeUnique (store initial) ''promo''"
    by (simp add: initial_def isShortCodeUnique_def loadUrls_def)
  with race_reachable show ?thesis
    by (simp add: race_load newUrl_def demo_pending_def trim_promo matches_code_def)
qed

subsection \<open>Instances of the sweep and of the rate-limit frame\<close>






theorem rate_window_frame_witness:
  "snd (checkRateLimit 5 \<lparr>urls_key = None, rate_key = Some [1, 2]\<rparr>)
     = \<lparr>urls_key = None, rate_key = Some [1, 2]\<rparr>
   \<and> saveUrls 1 always_writes 5 [] \<lparr>urls_key = None, rate_key = Some [1, 2]\<rparr>
       = Some \<lparr>urls_key = Some [], rate_key = Some [1, 2]\<rparr>
   \<and> cleanupExpiredUrls 1 always_writes 5 \<lparr>urls_key = None, rate_key = Some [1, 2]\<rparr>
       = Some (\<lparr>removed = 0, trimmed = 0, urls = []\<rparr>, \<lparr>urls_key = None, rate_key = Some [1, 2]\<rparr>)
   \<and> addUrl 1 always_writes 5 (sample_url ''id1'' ''abc'' None) \<lparr>urls_key = None, rate_key = Some [1, 2]\<rparr>
       = Some ([sample_url ''id1'' ''abc'' None],
               \<lparr>urls_key = Some [sample_url ''id1'' ''abc'' None], rate_key = Some [1, 2]\<rparr>)
   \<and> deleteUrl 1 always_writes 5 ''id1'' \<lparr>urls_key = None, rate_key = Some [1, 2]\<rparr>
       = Some ([], \<lparr>urls_key = Some [], rate_key = Some [1, 2]\<rparr>)
   \<and> bulkDeleteUrls 1 always_writes 5 {''id1''} \<lparr>urls_key = None, rate_key = Some [1, 2]\<rparr>
       = Some ([], \<lparr>urls_key = Some [], rate_key = Some [1, 2]\<rparr>)
   \<and> incrementClicks 1 always_writes 5
         \<lparr>timestamp = 0, referrer = None, deviceType = Some desktop, timezone = None, userAgent = None\<rparr>
         ''id1'' \<lparr>urls_key = None, rate_key = Some [1, 2]\<rparr>
       = Some ([], \<lparr>urls_key = Some [], rate_key = Some [1, 2]\<rparr>)
   \<and> recordRateLimitHit always_writes 5 \<lparr>urls_key = None, rate_key = Some [1, 2]\<rparr>
       = Inr \<lparr>urls_key = None, rate_key = Some [1, 2, 5]\<rparr>"
  using rate_window_frame [of 5 "\<lparr>urls_key = None, rate_key = Some [1, 2]\<rparr>" 1 always_writes "[]"
      "\<lparr>urls_key = Some [], rate_key = Some [1, 2]\<rparr>"
      "\<lparr>removed = 0, trimmed = 0, urls = []\<rparr>" "\<lparr>urls_key = None, rate_key = Some [1, 2]\<rparr>"
      "sample_url ''id1'' ''abc'' None" "[sample_url ''id1'' ''abc'' None]"
      "\<lparr>urls_key = Some [sample_url ''id1'' ''abc'' None], rate_key = Some [1, 2]\<rparr>"
      "''id1''" "[]" "\<lparr>urls_key = Some [], rate_key = Some [1, 2]\<rparr>"
      "{''id1''}" "[]" "\<lparr>urls_key = Some [], rate_key = Some [1, 2]\<rparr>"
      "\<lparr>timestamp = 0, referrer = None, deviceType = Some desktop, timezone = None, userAgent = None\<rparr>"
      "[]" "\<lparr>urls_key = Some [], rate_key = Some [1, 2]\<rparr>"
      "\<lparr>urls_key = None, rate_key = Some [1, 2, 5]\<rparr>"]
  by (simp add: check_snd always_writes_def addUrl_def deleteUrl_def bulkDeleteUrls_def
      incrementClicks_def loadUrls_def Let_def recordRateLimitHit_def saveRateLimit_def
      loadRateLimit_def RATE_LIMIT_WINDOW_def)


section \<open>Properties of the URL normalisation\<close>

subsection \<open>Characters\<close>




lemma of_char_split: "16 * (of_char c div 16) + of_char c mod 16 = (of_char (c::char) :: nat)"
  by simp





subsection \<open>Splitting and joining\<close>

lemma split_on_ne [simp]: "split_on P s \<noteq> []"
  by (induction s) (auto simp: Let_def)





subsection \<open>Percent encoding\<close>



subsection \<open>Decimal numbers\<close>



subsection \<open>Paths\<close>

lemma wf_seg_Nil [simp]: "wf_seg []"
  by (simp add: wf_seg_def is_single_dot_def is_double_dot_def toLowerCase_def)

















subsection \<open>Form encoding\<close>



















lemma sort_entries_set: "set (sort_entries es) = set es"
  by (simp add: sort_entries_def)

lemma sort_entries_empty: "(sort_entries es = []) = (es = [])"
  by (metis sort_entries_set set_empty)




























subsection \<open>Lower case and the parser\<close>

lemma lower_char_cases:
  "lower_char c = c \<or> (CHR ''A'' \<le> c \<and> c \<le> CHR ''Z'' \<and> CHR ''a'' \<le> lower_char c \<and> lower_char c \<le> CHR ''z'')"
  by (auto simp: lower_char_def less_eq_char_def)

lemma lower_char_eq:
  assumes "\<not> (CHR ''a'' \<le> d \<and> d \<le> CHR ''z'')" "\<not> (CHR ''A'' \<le> d \<and> d \<le> CHR ''Z'')"
  shows "(lower_char c = d) = (c = d)"
  using lower_char_cases[of c] assms by auto

lemma lower_char_specials [simp]:
  "(lower_char c = CHR '':'') = (c = CHR '':'')"
  "(lower_char c = CHR ''?'') = (c = CHR ''?'')"
  "(lower_char c = CHR ''#'') = (c = CHR ''#'')"
  "(lower_char c = CHR ''/'') = (c = CHR ''/'')"
  "(lower_char c = CHR 0x5C) = (c = CHR 0x5C)"
  "(lower_char c = CHR ''@'') = (c = CHR ''@'')"
  "(lower_char c = CHR ''['') = (c = CHR ''['')"
  "(lower_char c = CHR '' '') = (c = CHR '' '')"
  "(lower_char c = CHR ''+'') = (c = CHR ''+'')"
  "(lower_char c = CHR ''-'') = (c = CHR ''-'')"
  "(lower_char c = CHR ''.'') = (c = CHR ''.'')"
  by (rule lower_char_eq; simp add: less_eq_char_def)+

lemma lower_is_alpha [simp]: "is_alpha (lower_char c) = is_alpha c"
  using lower_char_cases[of c] by (auto simp: is_alpha_def)

lemma lower_is_digit [simp]: "is_digit (lower_char c) = is_digit c"
proof (cases "lower_char c = c")
  case True
  then show ?thesis by simp
next
  case False
  then have "CHR ''A'' \<le> c \<and> c \<le> CHR ''Z'' \<and> CHR ''a'' \<le> lower_char c \<and> lower_char c \<le> CHR ''z''"
    using lower_char_cases[of c] by blast
  then show ?thesis by (auto simp: is_digit_def less_eq_char_def)
qed

lemma lower_is_alnum [simp]: "is_alnum (lower_char c) = is_alnum c"
proof -
  have "is_alnum d = (is_alpha d \<or> is_digit d)" for d
    by (auto simp: is_alnum_def is_alpha_def is_digit_def)
  then show ?thesis by simp
qed

lemma lower_is_scheme_char [simp]: "is_scheme_char (lower_char c) = is_scheme_char c"
  by (simp add: is_scheme_char_def)

lemma lower_is_host_char [simp]: "is_host_char (lower_char c) = is_host_char c"
  by (simp add: is_host_char_def)

lemma lower_is_slash [simp]: "is_slash (lower_char c) = is_slash c"
  by (simp add: is_slash_def)

lemma lower_printable [simp]: "printable (lower_char c) = printable c"
proof (cases "lower_char c = c")
  case True
  then show ?thesis by simp
next
  case False
  then have "CHR ''A'' \<le> c \<and> c \<le> CHR ''Z'' \<and> CHR ''a'' \<le> lower_char c \<and> lower_char c \<le> CHR ''z''"
    using lower_char_cases[of c] by blast
  then show ?thesis by (auto simp: printable_def less_eq_char_def)
qed




subsection \<open>Trimming\<close>













subsection \<open>A failure of the parser survives lower-casing and trimming\<close>














lemmas char_defs = is_scheme_char_def is_alnum_def is_alpha_def is_digit_def is_slash_def
  is_host_char_def printable_def lower_char_def toLowerCase_def less_eq_char_def less_char_def
  in_path_set_def in_query_set_def in_special_query_set_def char_of_def bit_Suc_0_iff bit_0

lemmas parse_defs = URL_parse_def parse_after_scheme_def Let_def url_strip_def
      host_unsupported_def parse_dec_def default_port_def parse_path_def path_last_def path_step_def
      percent_encode_def is_single_dot_def is_double_dot_def

lemmas norm_defs = normalize_parsed_def searchParams_def parse_form_def parse_pair_def
   set_search_def set_pathname_def strip_slash_def pathname_def serialize_form_def form_encode_def
   form_encode_char_def sort_entries_def percent_encode_char_def hex_digit_def href_def

lemmas eval_defs = normalizeUrl_def trailing_slash_stable_def norm_defs parse_defs char_defs

lemma normalize_spec_left:
  "normalizeUrl ''HTTP://Example.com:80/a?b=2&a=1/'' = Some ''http://example.com/a?a=1%2F&b=2''"
  by (simp add: eval_defs)

lemma normalize_spec_right:
  "normalizeUrl ''http://example.com/a?a=1&b=2'' = Some ''http://example.com/a?a=1&b=2''"
  by (simp add: eval_defs)

lemma normalize_path_slash:
  "normalizeUrl ''HTTP://Example.com:80/a/?b=2&a=1'' = Some ''http://example.com/a?a=1&b=2''"
  by (simp add: eval_defs)








text \<open>
  C9, as the claim states it, fails: the trailing slash of the first URL is not on the
  path, it is the end of the value of the parameter \<open>a\<close>, and it stays there,
  percent-encoded by the serialiser of \<open>URLSearchParams\<close>.
\<close>

theorem normalize_spec_pair_counterexample:
  "normalizeUrl ''HTTP://Example.com:80/a?b=2&a=1/'' = Some ''http://example.com/a?a=1%2F&b=2''
   \<and> normalizeUrl ''http://example.com/a?a=1&b=2'' = Some ''http://example.com/a?a=1&b=2''
   \<and> normalizeUrl ''HTTP://Example.com:80/a?b=2&a=1/'' \<noteq> normalizeUrl ''http://example.com/a?a=1&b=2''"
  by (simp add: normalize_spec_left normalize_spec_right)

text \<open>
  C9, as the code has it: with the trailing slash on the path, the two URLs have the same
  normal form. Case of scheme and host, the default port 80, the order of the parameters
  and the trailing slash of the path are erased.
\<close>

theorem normalize_equivalent_pair:
  "normalizeUrl ''HTTP://Example.com:80/a/?b=2&a=1'' = normalizeUrl ''http://example.com/a?a=1&b=2''
   \<and> normalizeUrl ''http://example.com/a?a=1&b=2'' = Some ''http://example.com/a?a=1&b=2''"
  by (simp add: normalize_path_slash normalize_spec_right)

end
